theory Spec2Isabelle
  imports Main "HOL-Library.Sublist"
begin

text \<open>
  The risk-detection and scoring engine of the extension: the keyword matcher
  \<open>analyzeRisks\<close>, the aggregator \<open>calculateOverallSeverity\<close>, the scorer
  \<open>calculateRiskScore\<close>, the comparator \<open>compareToAverage\<close>, the scanner
  \<open>detectRedFlags\<close> and the facade \<open>analyzeRisksEnhanced\<close>, embedded function by
  function, with the tables they read.
\<close>

section \<open>The JavaScript primitives the analyzer calls\<close>

text \<open>
  A JavaScript string is a sequence of UTF-16 code units. The development models the
  texts whose code units lie in U+0000..U+00FF: a \<^typ>\<open>char\<close> is one such code unit and a
  \<^typ>\<open>string\<close> is the sequence. On this range \<open>toLowerCase\<close> maps one code unit to one
  code unit, so lengths and offsets are preserved. Numbers are integers throughout (ranks,
  scores, percentiles, positions), far below the range where a double stops being exact.
\<close>

definition lower_unit :: "char \<Rightarrow> char" where
  \<comment> \<open>\<open>toLowerCase\<close> on one code unit: A-Z, and the Latin-1 capitals U+00C0..U+00DE
      without the multiplication sign U+00D7.\<close>
  "lower_unit c =
     (let n = (of_char c :: nat)
      in if (65 \<le> n \<and> n \<le> 90) \<or> (192 \<le> n \<and> n \<le> 214) \<or> (216 \<le> n \<and> n \<le> 222)
         then char_of (n + 32) else c)"

definition toLowerCase :: "string \<Rightarrow> string" where
  "toLowerCase s = map lower_unit s"

definition canonicalize :: "char \<Rightarrow> char" where
  \<comment> \<open>The \<open>Canonicalize\<close> operation of a regular expression with the \<open>i\<close> flag: the
      code unit's upper case. The two code units of the range whose upper case lies
      outside it (U+00B5 and U+00FF) meet no other code unit of the range there, and
      U+00DF has no single upper case, so the three stand for themselves.\<close>
  "canonicalize c =
     (let n = (of_char c :: nat)
      in if (97 \<le> n \<and> n \<le> 122) \<or> (224 \<le> n \<and> n \<le> 246) \<or> (248 \<le> n \<and> n \<le> 254)
         then char_of (n - 32) else c)"

definition is_white_space :: "char \<Rightarrow> bool" where
  \<comment> \<open>The class \<open>\s\<close>, which is also what \<open>trim\<close> strips: tab, line feed, vertical
      tab, form feed, carriage return, space and the no-break space.\<close>
  "is_white_space c = ((of_char c :: nat) \<in> {9, 10, 11, 12, 13, 32, 160})"

fun starts_with :: "string \<Rightarrow> string \<Rightarrow> bool" where
  "starts_with s [] = True"
| "starts_with [] (k # ks) = False"
| "starts_with (c # cs) (k # ks) = (c = k \<and> starts_with cs ks)"

fun indexOf :: "string \<Rightarrow> string \<Rightarrow> nat option" where
  \<comment> \<open>\<open>s.indexOf(k)\<close>: the first position at which \<open>k\<close> occurs; \<open>None\<close> is the -1.\<close>
  "indexOf [] k = (if k = [] then Some 0 else None)"
| "indexOf (c # cs) k =
     (if starts_with (c # cs) k then Some 0
      else (case indexOf cs k of None \<Rightarrow> None | Some i \<Rightarrow> Some (Suc i)))"

definition substring :: "string \<Rightarrow> nat \<Rightarrow> nat \<Rightarrow> string" where
  \<comment> \<open>\<open>s.substring(a, b)\<close>: both arguments are clamped to the length and swapped when
      the first is the larger.\<close>
  "substring s a b =
     (let a' = min a (length s); b' = min b (length s);
          lo = min a' b'; hi = max a' b'
      in take (hi - lo) (drop lo s))"

definition trim :: "string \<Rightarrow> string" where
  "trim s = rev (dropWhile is_white_space (rev (dropWhile is_white_space s)))"

definition digit_char :: "int \<Rightarrow> char" where
  "digit_char d = char_of (48 + d)"

function decimal_digits :: "int \<Rightarrow> string" where
  "decimal_digits n =
     (if n < 10 then [digit_char n] else decimal_digits (n div 10) @ [digit_char (n mod 10)])"
  by pat_completeness auto
termination
  by (relation "measure nat") auto

declare decimal_digits.simps [simp del]

definition string_of_int :: "int \<Rightarrow> string" where
  \<comment> \<open>The decimal text a template literal inserts for an integral number.\<close>
  "string_of_int i = (if i < 0 then CHR ''-'' # decimal_digits (- i) else decimal_digits i)"

subsection \<open>Regular expressions\<close>

text \<open>
  The patterns of the source use literal text, \<open>\s+\<close>, optional groups and
  alternatives, all under the \<open>i\<close> flag. The matcher is the backtracking one of the
  language: \<open>rmatch r s\<close> lists what is left of \<open>s\<close> after each way \<open>r\<close> matches at its
  start, in the order in which backtracking tries them (a greedy \<open>\s+\<close> or \<open>?\<close> takes
  the longer way first, an alternative its left branch first).
\<close>

datatype regex =
    Lit string
  | Spaces
  | Seq regex regex
  | Alt regex regex
  | Opt regex

fun lit_match :: "string \<Rightarrow> string \<Rightarrow> string option" where
  "lit_match [] s = Some s"
| "lit_match (p # ps) [] = None"
| "lit_match (p # ps) (c # cs) =
     (if canonicalize c = canonicalize p then lit_match ps cs else None)"

fun spaces_match :: "string \<Rightarrow> string list" where
  "spaces_match [] = []"
| "spaces_match (c # cs) = (if is_white_space c then spaces_match cs @ [cs] else [])"

fun rmatch :: "regex \<Rightarrow> string \<Rightarrow> string list" where
  "rmatch (Lit p) s = (case lit_match p s of None \<Rightarrow> [] | Some rest \<Rightarrow> [rest])"
| "rmatch Spaces s = spaces_match s"
| "rmatch (Seq a b) s = concat (map (rmatch b) (rmatch a s))"
| "rmatch (Alt a b) s = rmatch a s @ rmatch b s"
| "rmatch (Opt a) s = rmatch a s @ [s]"

definition match_here :: "regex \<Rightarrow> string \<Rightarrow> string option" where
  \<comment> \<open>The text matched at the start of \<open>s\<close>, if any: the first way that succeeds.\<close>
  "match_here r s =
     (case rmatch r s of [] \<Rightarrow> None | rest # _ \<Rightarrow> Some (take (length s - length rest) s))"

fun regex_exec :: "regex \<Rightarrow> string \<Rightarrow> string option" where
  \<comment> \<open>\<open>s.match(r)\<close> without the \<open>g\<close> flag, reduced to its element 0: the match at the
      leftmost position that has one; \<open>None\<close> is the \<open>null\<close>.\<close>
  "regex_exec r [] = match_here r []"
| "regex_exec r (c # cs) =
     (case match_here r (c # cs) of Some m \<Rightarrow> Some m | None \<Rightarrow> regex_exec r cs)"

definition regex_test :: "regex \<Rightarrow> string \<Rightarrow> bool" where
  "regex_test r s = (regex_exec r s \<noteq> None)"

fun seqs :: "regex list \<Rightarrow> regex" where
  "seqs [] = Lit []"
| "seqs [r] = r"
| "seqs (r # rs) = Seq r (seqs rs)"

fun alts :: "string \<Rightarrow> string list \<Rightarrow> regex" where
  "alts w [] = Lit w"
| "alts w (v # vs) = Alt (Lit w) (alts v vs)"

section \<open>The data model (\<open>RiskSeverity\<close>, \<open>RiskCategory\<close>, \<open>RiskItem\<close> of shared/types)\<close>

datatype RiskSeverity = Low | Medium | High | Critical

datatype RiskCategory =
    DataSharing | AutoRenewal | ThirdPartyAccess | LiabilityWaiver
  | Arbitration | DataRetention | AccountTermination | Jurisdiction

fun category_name :: "RiskCategory \<Rightarrow> string" where
  "category_name DataSharing = ''data_sharing''"
| "category_name AutoRenewal = ''auto_renewal''"
| "category_name ThirdPartyAccess = ''third_party_access''"
| "category_name LiabilityWaiver = ''liability_waiver''"
| "category_name Arbitration = ''arbitration''"
| "category_name DataRetention = ''data_retention''"
| "category_name AccountTermination = ''account_termination''"
| "category_name Jurisdiction = ''jurisdiction''"

record Location =
  startIndex :: nat
  endIndex :: nat

record RiskItem =
  item_id :: string
  category :: RiskCategory
  severity :: RiskSeverity
  title :: string
  summary :: string
  originalText :: string
  location :: "Location option"

section \<open>The static tables (\<open>RISK_CATEGORIES\<close>, \<open>RISK_KEYWORDS\<close> of shared/constants)\<close>

record CategoryMeta =
  label :: string
  description :: string
  defaultSeverity :: RiskSeverity

fun RISK_CATEGORIES :: "RiskCategory \<Rightarrow> CategoryMeta" where
  \<comment> \<open>The \<open>icon\<close> field, which no function of the analyzer reads, is left out.\<close>
  "RISK_CATEGORIES DataSharing =
     \<lparr>label = ''Data Sharing'', description = ''Your data may be shared with third parties'',
      defaultSeverity = High\<rparr>"
| "RISK_CATEGORIES AutoRenewal =
     \<lparr>label = ''Auto-Renewal'', description = ''Subscription automatically renews'',
      defaultSeverity = Medium\<rparr>"
| "RISK_CATEGORIES ThirdPartyAccess =
     \<lparr>label = ''Third-Party Access'',
      description = ''External parties can access your information'',
      defaultSeverity = High\<rparr>"
| "RISK_CATEGORIES LiabilityWaiver =
     \<lparr>label = ''Liability Waiver'', description = ''Company limits their responsibility'',
      defaultSeverity = High\<rparr>"
| "RISK_CATEGORIES Arbitration =
     \<lparr>label = ''Arbitration Clause'',
      description = ''You may waive your right to sue in court'',
      defaultSeverity = Critical\<rparr>"
| "RISK_CATEGORIES DataRetention =
     \<lparr>label = ''Data Retention'', description = ''Your data may be kept indefinitely'',
      defaultSeverity = Medium\<rparr>"
| "RISK_CATEGORIES AccountTermination =
     \<lparr>label = ''Account Termination'',
      description = ''Account can be terminated without notice'',
      defaultSeverity = Medium\<rparr>"
| "RISK_CATEGORIES Jurisdiction =
     \<lparr>label = ''Jurisdiction'', description = ''Legal disputes governed by specific laws'',
      defaultSeverity = Low\<rparr>"

definition RISK_KEYWORDS :: "(RiskCategory \<times> string list) list" where
  \<comment> \<open>An association list in the order of the object literal, which is the order in
      which \<open>Object.entries\<close> yields the entries.\<close>
  "RISK_KEYWORDS =
    [(DataSharing,
        [''share with third parties'', ''share your information'', ''disclose to partners'',
         ''sell your data'', ''transfer your information'', ''share with affiliates'',
         ''provide to advertisers'']),
     (AutoRenewal,
        [''automatically renew'', ''auto-renewal'', ''recurring billing'',
         ''subscription will renew'', ''cancel before'', ''billing cycle'',
         ''charged automatically'']),
     (ThirdPartyAccess,
        [''service providers'', ''third-party services'', ''contractors'',
         ''business partners'', ''access your information'', ''share with vendors'']),
     (LiabilityWaiver,
        [''limitation of liability'', ''not responsible for'', ''not liable for'',
         ''no warranty'', ''as is'', ''disclaim all warranties'', ''use at your own risk'']),
     (Arbitration,
        [''binding arbitration'', ''waive right to jury'', ''class action waiver'',
         ''arbitration agreement'', ''dispute resolution'',
         ''waive your right to participate in class action'']),
     (DataRetention,
        [''retain your data'', ''keep your information'', ''store indefinitely'',
         ''retain after termination'', ''data retention period'', ''preserve your data'']),
     (AccountTermination,
        [''terminate at any time'', ''suspend your account'', ''without notice'',
         ''sole discretion'', ''terminate without cause'', ''revoke access'']),
     (Jurisdiction,
        [''governed by the laws of'', ''exclusive jurisdiction'', ''venue shall be'',
         ''subject to the laws'', ''courts of''])]"

section \<open>The tables of the analyzer module\<close>

record DangerousCombination =
  categories :: "RiskCategory list"
  severityBoost :: int
  warning :: string

definition DANGEROUS_COMBINATIONS :: "DangerousCombination list" where
  "DANGEROUS_COMBINATIONS =
    [\<lparr>categories = [Arbitration, LiabilityWaiver], severityBoost = 1,
      warning = ''Combined arbitration and liability waiver severely limits your legal options''\<rparr>,
     \<lparr>categories = [DataSharing, ThirdPartyAccess, DataRetention], severityBoost = 1,
      warning = ''Your data can be shared widely and kept indefinitely''\<rparr>,
     \<lparr>categories = [AutoRenewal, AccountTermination], severityBoost = 1,
      warning = ''They can charge you automatically but terminate you at will''\<rparr>]"

text \<open>
  The ten patterns of \<open>RED_FLAGS\<close>, each with the \<open>i\<close> flag:
  \<^verbatim>\<open>waive\s+(your\s+)?right\s+to\s+(a\s+)?jury\<close>,
  \<^verbatim>\<open>class\s+action\s+waiver\<close>,
  \<^verbatim>\<open>binding\s+arbitration\<close>,
  \<^verbatim>\<open>sell\s+(your\s+)?(personal\s+)?(data|information)\<close>,
  \<^verbatim>\<open>perpetual\s+(and\s+)?irrevocable\s+license\<close>,
  \<^verbatim>\<open>without\s+(prior\s+)?notice\<close>,
  \<^verbatim>\<open>sole\s+(and\s+absolute\s+)?discretion\<close>,
  \<^verbatim>\<open>indemnify\s+(and\s+)?hold\s+harmless\<close>,
  \<^verbatim>\<open>waive\s+any\s+claims\<close>,
  \<^verbatim>\<open>no\s+refunds?\s+(under\s+any\s+circumstances)?\<close>.
\<close>

definition RED_FLAGS :: "regex list" where
  "RED_FLAGS =
    [seqs [Lit ''waive'', Spaces, Opt (seqs [Lit ''your'', Spaces]), Lit ''right'', Spaces,
          Lit ''to'', Spaces, Opt (seqs [Lit ''a'', Spaces]), Lit ''jury''],
     seqs [Lit ''class'', Spaces, Lit ''action'', Spaces, Lit ''waiver''],
     seqs [Lit ''binding'', Spaces, Lit ''arbitration''],
     seqs [Lit ''sell'', Spaces, Opt (seqs [Lit ''your'', Spaces]),
          Opt (seqs [Lit ''personal'', Spaces]), Alt (Lit ''data'') (Lit ''information'')],
     seqs [Lit ''perpetual'', Spaces, Opt (seqs [Lit ''and'', Spaces]), Lit ''irrevocable'',
          Spaces, Lit ''license''],
     seqs [Lit ''without'', Spaces, Opt (seqs [Lit ''prior'', Spaces]), Lit ''notice''],
     seqs [Lit ''sole'', Spaces,
          Opt (seqs [Lit ''and'', Spaces, Lit ''absolute'', Spaces]), Lit ''discretion''],
     seqs [Lit ''indemnify'', Spaces, Opt (seqs [Lit ''and'', Spaces]), Lit ''hold'', Spaces,
          Lit ''harmless''],
     seqs [Lit ''waive'', Spaces, Lit ''any'', Spaces, Lit ''claims''],
     seqs [Lit ''no'', Spaces, Lit ''refund'', Opt (Lit ''s''), Spaces,
          Opt (seqs [Lit ''under'', Spaces, Lit ''any'', Spaces, Lit ''circumstances''])]]"

text \<open>
  \<open>INDUSTRY_AVERAGES\<close> is an object literal, and \<open>INDUSTRY_AVERAGES[industry]\<close> is a
  property read: it finds the six own properties and, for any other name, what the
  object inherits from \<open>Object.prototype\<close>. A read therefore yields a number, an
  inherited value that is not a number (a function, or the prototype object itself),
  or \<open>undefined\<close>.
\<close>

datatype js_value = Number int | Inherited | Undefined

definition Object_prototype_names :: "string list" where
  "Object_prototype_names =
    [''constructor'', ''toString'', ''toLocaleString'', ''valueOf'', ''hasOwnProperty'',
     ''isPrototypeOf'', ''propertyIsEnumerable'', ''__proto__'', ''__defineGetter__'',
     ''__defineSetter__'', ''__lookupGetter__'', ''__lookupSetter__'']"

definition INDUSTRY_AVERAGES_own :: "(string \<times> int) list" where
  "INDUSTRY_AVERAGES_own =
    [(''social_media'', 72), (''ecommerce'', 58), (''saas'', 54), (''finance'', 68),
     (''healthcare'', 62), (''default'', 55)]"

definition INDUSTRY_AVERAGES :: "string \<Rightarrow> js_value" where
  "INDUSTRY_AVERAGES name =
     (case map_of INDUSTRY_AVERAGES_own name of
        Some a \<Rightarrow> Number a
      | None \<Rightarrow> if name \<in> set Object_prototype_names then Inherited else Undefined)"

section \<open>The keyword matcher\<close>

text \<open>
  \<open>Date.now()\<close> is the one thing \<open>analyzeRisks\<close> reads besides its argument. The
  clock is a parameter: \<open>now k\<close> is what the call numbered \<open>k\<close> (from 0) of
  \<open>Date.now()\<close> returns within one run. The function calls it once for each finding
  it pushes, so the call number is the number of findings pushed so far.
\<close>

type_synonym clock = "nat \<Rightarrow> int"

definition const_clock :: "int \<Rightarrow> clock" where
  "const_clock t k = t"

definition determineSeverity :: "RiskCategory \<Rightarrow> string \<Rightarrow> RiskSeverity" where
  "determineSeverity cat context =
     (let contextLower = toLowerCase context
      in if regex_test (alts ''waive'' [''forfeit'', ''surrender'', ''binding'', ''mandatory'',
                                         ''required'']) contextLower
            \<and> (cat = Arbitration \<or> cat = LiabilityWaiver)
         then Critical
         else if regex_test (alts ''sell'' [''monetize'', ''indefinitely'', ''without notice'',
                                            ''any reason'']) contextLower
         then High
         else defaultSeverity (RISK_CATEGORIES cat))"

fun generateSummary :: "RiskCategory \<Rightarrow> string \<Rightarrow> string" where
  "generateSummary DataSharing context =
     ''This service may share your personal information with third parties, partners, or advertisers.''"
| "generateSummary AutoRenewal context =
     ''Your subscription will automatically renew and you will be charged unless you cancel before the renewal date.''"
| "generateSummary ThirdPartyAccess context =
     ''External companies and service providers may have access to your data and account information.''"
| "generateSummary LiabilityWaiver context =
     ''The company limits their responsibility if something goes wrong. You may have limited options for recourse.''"
| "generateSummary Arbitration context =
     ''You may be giving up your right to sue in court or join a class action lawsuit. Disputes would be handled through private arbitration.''"
| "generateSummary DataRetention context =
     ''Your data may be kept for an extended period, even after you close your account.''"
| "generateSummary AccountTermination context =
     ''The company can suspend or terminate your account at their discretion, potentially without warning.''"
| "generateSummary Jurisdiction context =
     ''Legal matters will be handled according to specific laws and courts, which may not be in your location.''"

fun severityRank :: "RiskSeverity \<Rightarrow> int" where
  "severityRank Low = 1"
| "severityRank Medium = 2"
| "severityRank High = 3"
| "severityRank Critical = 4"

fun first_keyword :: "string \<Rightarrow> string list \<Rightarrow> (nat \<times> string) option" where
  \<comment> \<open>The inner loop up to its \<open>break\<close>: the first keyword of the list that occurs in
      the lower-cased text, with the position \<open>indexOf\<close> found.\<close>
  "first_keyword textLower [] = None"
| "first_keyword textLower (keyword # keywords) =
     (case indexOf textLower (toLowerCase keyword) of
        Some index \<Rightarrow> Some (index, keyword)
      | None \<Rightarrow> first_keyword textLower keywords)"

definition scan_category ::
  "clock \<Rightarrow> string \<Rightarrow> RiskItem list \<Rightarrow> RiskCategory \<times> string list \<Rightarrow> RiskItem list" where
  \<comment> \<open>One round of the outer loop, from the list of findings so far to the next one.\<close>
  "scan_category now text found entry =
     (case entry of (riskCategory, keywords) \<Rightarrow>
        (case first_keyword (toLowerCase text) keywords of
           None \<Rightarrow> found
         | Some (index, keyword) \<Rightarrow>
             (let start = nat (max 0 (int index - 100));
                  end = min (length text) (index + length keyword + 100);
                  context = substring text start end
              in if List.find (\<lambda>r. category r = riskCategory) found = None
                 then found @
                   [\<lparr>item_id = ''risk-'' @ category_name riskCategory @ ''-''
                                @ string_of_int (now (length found)),
                     category = riskCategory,
                     severity = determineSeverity riskCategory context,
                     title = label (RISK_CATEGORIES riskCategory),
                     summary = generateSummary riskCategory context,
                     originalText = trim context,
                     location = Some \<lparr>startIndex = index,
                                      endIndex = index + length keyword\<rparr>\<rparr>]
                 else found)))"

fun insert_by :: "('a \<Rightarrow> 'a \<Rightarrow> int) \<Rightarrow> 'a \<Rightarrow> 'a list \<Rightarrow> 'a list" where
  "insert_by cmp x [] = [x]"
| "insert_by cmp x (y # ys) =
     (if cmp x y \<le> 0 then x # y # ys else y # insert_by cmp x ys)"

definition array_sort :: "('a \<Rightarrow> 'a \<Rightarrow> int) \<Rightarrow> 'a list \<Rightarrow> 'a list" where
  \<comment> \<open>\<open>xs.sort(cmp)\<close>. The language requires the sort to be stable; under a comparator
      that orders by a key the result of a stable sort is unique, and insertion from
      the right computes it.\<close>
  "array_sort cmp xs = foldr (insert_by cmp) xs []"

definition analyzeRisks :: "clock \<Rightarrow> string \<Rightarrow> RiskItem list" where
  "analyzeRisks now text =
     array_sort (\<lambda>a b. severityRank (severity b) - severityRank (severity a))
       (foldl (scan_category now text) [] RISK_KEYWORDS)"

section \<open>Severity, summary, score and comparison\<close>

fun calculateOverallSeverity :: "RiskItem list \<Rightarrow> RiskSeverity" where
  "calculateOverallSeverity [] = Low"
| "calculateOverallSeverity (r # rs) =
     (let maxRank = foldl max (severityRank (severity r))
                      (map (\<lambda>r. severityRank (severity r)) rs)
      in if maxRank \<ge> 4 then Critical
         else if maxRank \<ge> 3 then High
         else if maxRank \<ge> 2 then Medium
         else Low)"

definition generateOverallSummary :: "RiskItem list \<Rightarrow> string" where
  "generateOverallSummary found =
     (if length found = 0 then ''No significant risks detected in this agreement.''
      else
        (let criticalCount = length (filter (\<lambda>r. severity r = Critical) found);
             highCount = length (filter (\<lambda>r. severity r = High) found);
             s0 = ''Found '' @ string_of_int (int (length found)) @ '' potential risk''
                   @ (if length found = 1 then [] else ''s'') @ ''. '';
             s1 = (if criticalCount > 0
                   then s0 @ string_of_int (int criticalCount) @ '' critical issue''
                        @ (if criticalCount = 1 then [] else ''s'') @ '' require''
                        @ (if criticalCount = 1 then ''s'' else []) @ '' attention. ''
                   else s0);
             s2 = (if highCount > 0
                   then s1 @ string_of_int (int highCount) @ '' high-priority concern''
                        @ (if highCount = 1 then [] else ''s'') @ ''. ''
                   else s1)
         in trim s2))"

definition hasAllCategories :: "RiskCategory list \<Rightarrow> DangerousCombination \<Rightarrow> bool" where
  \<comment> \<open>\<open>combo.categories.every(c => categories.includes(c))\<close>\<close>
  "hasAllCategories cats combo = list_all (\<lambda>c. c \<in> set cats) (categories combo)"

definition calculateRiskScore :: "RiskItem list \<Rightarrow> int" where
  "calculateRiskScore found =
     (if length found = 0 then 0
      else
        (let base = foldl (\<lambda>score risk. score + severityRank (severity risk) * 8) 0 found;
             cats = map category found;
             boosted = foldl (\<lambda>score combo.
                          if hasAllCategories cats combo
                          then score + severityBoost combo * 15 else score)
                        base DANGEROUS_COMBINATIONS
         in min 100 boosted))"

datatype ComparisonKind = Better | Average | Worse

record Comparison =
  comparison :: ComparisonKind
  percentile :: int
  message :: string

fun truthy :: "js_value \<Rightarrow> bool" where
  "truthy (Number n) = (n \<noteq> 0)"
| "truthy Inherited = True"
| "truthy Undefined = False"

definition js_or :: "js_value \<Rightarrow> js_value \<Rightarrow> js_value" where
  "js_or a b = (if truthy a then a else b)"

fun js_minus :: "int \<Rightarrow> js_value \<Rightarrow> int option" where
  \<comment> \<open>\<open>score - average\<close>; \<open>None\<close> is the NaN that a function, an object or
      \<open>undefined\<close> on the right gives.\<close>
  "js_minus score (Number a) = Some (score - a)"
| "js_minus score Inherited = None"
| "js_minus score Undefined = None"

definition compareToAverage :: "int \<Rightarrow> string \<Rightarrow> Comparison" where
  "compareToAverage score industry =
     (let average = js_or (INDUSTRY_AVERAGES industry) (INDUSTRY_AVERAGES ''default'');
          difference = js_minus score average
      in case difference of
           Some d \<Rightarrow>
             if d < - 15 then
               \<lparr>comparison = Better, percentile = max 5 (50 - \<bar>d\<bar>),
                message = ''This agreement is better than ''
                          @ string_of_int (100 - max 5 (50 - \<bar>d\<bar>)) @ ''% of similar services''\<rparr>
             else if d > 15 then
               \<lparr>comparison = Worse, percentile = min 95 (50 + d),
                message = ''This agreement is riskier than ''
                          @ string_of_int (min 95 (50 + d)) @ ''% of similar services''\<rparr>
             else
               \<lparr>comparison = Average, percentile = 50,
                message = ''This agreement has typical risk levels for this type of service''\<rparr>
         | None \<Rightarrow>
             \<lparr>comparison = Average, percentile = 50,
              message = ''This agreement has typical risk levels for this type of service''\<rparr>)"

section \<open>Combinations, red flags and the enhanced analysis\<close>

definition detectDangerousCombinations :: "RiskItem list \<Rightarrow> string list" where
  "detectDangerousCombinations found =
     (let cats = map category found
      in foldl (\<lambda>warnings combo.
                  if hasAllCategories cats combo then warnings @ [warning combo] else warnings)
           [] DANGEROUS_COMBINATIONS)"

definition detectRedFlags :: "string \<Rightarrow> string list" where
  "detectRedFlags text =
     foldl (\<lambda>flags pattern.
              case regex_exec pattern text of
                Some m \<Rightarrow> flags @ [m]
              | None \<Rightarrow> flags)
       [] RED_FLAGS"

record EnhancedAnalysis =
  risks :: "RiskItem list"
  score :: int
  comparison_record :: Comparison
  redFlags :: "string list"
  combinationWarnings :: "string list"
  overallSeverity :: RiskSeverity
  overall_summary :: string

definition analyzeRisksEnhanced :: "clock \<Rightarrow> string \<Rightarrow> EnhancedAnalysis" where
  \<comment> \<open>The fields \<open>comparison\<close> and \<open>summary\<close> of the result are \<open>comparison_record\<close> and
      \<open>overall_summary\<close> here, apart from the fields of the same names inside.\<close>
  "analyzeRisksEnhanced now text =
     (let found = analyzeRisks now text;
          sc = calculateRiskScore found;
          cmp = compareToAverage sc ''default'';
          flags = detectRedFlags text;
          warnings = detectDangerousCombinations found;
          base = calculateOverallSeverity found;
          summ = generateOverallSummary found;
          finalSeverity =
            (if length flags \<ge> 3 \<and> base \<noteq> Critical then Critical
             else if length flags \<ge> 2 \<and> severityRank base < 3 then High
             else base)
      in \<lparr>risks = found, score = sc, comparison_record = cmp, redFlags = flags,
          combinationWarnings = warnings, overallSeverity = finalSeverity,
          overall_summary = summ\<rparr>)"

section \<open>Notions the statements use\<close>

definition keyword_occurs :: "string \<Rightarrow> string \<Rightarrow> bool" where
  \<comment> \<open>The keyword occurs in the text as a contiguous piece, letter case apart.\<close>
  "keyword_occurs keyword text = sublist (toLowerCase keyword) (toLowerCase text)"

definition no_keyword_occurs :: "string \<Rightarrow> bool" where
  \<comment> \<open>No keyword of any category occurs in the text.\<close>
  "no_keyword_occurs text =
     list_all (\<lambda>entry. list_all (\<lambda>keyword. \<not> keyword_occurs keyword text) (snd entry))
       RISK_KEYWORDS"

definition without_id :: "RiskItem \<Rightarrow> RiskItem" where
  \<comment> \<open>A finding with its \<open>id\<close> blanked: every other field is kept.\<close>
  "without_id r = r\<lparr>item_id := []\<rparr>"

definition definition_order :: "RiskCategory \<Rightarrow> nat" where
  \<comment> \<open>The position of a category among the keys of \<open>RISK_KEYWORDS\<close>, the order in which
      the matcher scans the categories.\<close>
  "definition_order c = length (takeWhile (\<lambda>entry. fst entry \<noteq> c) RISK_KEYWORDS)"

definition first_match :: "regex \<Rightarrow> string \<Rightarrow> string list" where
  \<comment> \<open>What one pattern contributes to the red flags: its first match, or nothing.\<close>
  "first_match pattern text = (case regex_exec pattern text of Some m \<Rightarrow> [m] | None \<Rightarrow> [])"

section \<open>Code equations for the character classes\<close>

text \<open>
  The three character functions, restated on the eight bits of a code unit (the lowest
  first), so that concrete texts evaluate without arithmetic.
\<close>

lemma lower_unit_bits [code]:
  "lower_unit (Char b0 b1 b2 b3 b4 b5 b6 b7) =
     (if b6 \<and> \<not> b5 \<and>
         ((\<not> b7 \<and> (b0 \<or> b1 \<or> b2 \<or> b3 \<or> b4) \<and> \<not> (b4 \<and> b3 \<and> (b2 \<or> (b1 \<and> b0))))
          \<or> (b7 \<and> \<not> (b0 \<and> b1 \<and> b2 \<and> b4)))
      then Char b0 b1 b2 b3 b4 True b6 b7
      else Char b0 b1 b2 b3 b4 b5 b6 b7)"
  by (cases b0; cases b1; cases b2; cases b3; cases b4; cases b5; cases b6; cases b7;
      simp add: lower_unit_def; code_simp)

lemma canonicalize_bits [code]:
  "canonicalize (Char b0 b1 b2 b3 b4 b5 b6 b7) =
     (if b6 \<and> b5 \<and>
         ((\<not> b7 \<and> (b0 \<or> b1 \<or> b2 \<or> b3 \<or> b4) \<and> \<not> (b4 \<and> b3 \<and> (b2 \<or> (b1 \<and> b0))))
          \<or> (b7 \<and> \<not> (b0 \<and> b1 \<and> b2 \<and> b4)))
      then Char b0 b1 b2 b3 b4 False b6 b7
      else Char b0 b1 b2 b3 b4 b5 b6 b7)"
  by (cases b0; cases b1; cases b2; cases b3; cases b4; cases b5; cases b6; cases b7;
      simp add: canonicalize_def; code_simp)

lemma is_white_space_bits [code]:
  "is_white_space (Char b0 b1 b2 b3 b4 b5 b6 b7) =
     (\<not> b6 \<and>
      ((\<not> b7 \<and> \<not> b5 \<and> \<not> b4 \<and> b3 \<and> (b0 \<or> b1 \<or> b2) \<and> \<not> (b2 \<and> b1))
       \<or> (b5 \<and> \<not> b4 \<and> \<not> b3 \<and> \<not> b2 \<and> \<not> b1 \<and> \<not> b0)))"
  by (cases b0; cases b1; cases b2; cases b3; cases b4; cases b5; cases b6; cases b7;
      simp add: is_white_space_def)

section \<open>The severity aggregator\<close>

lemma foldl_max_eq_Max:
  fixes x :: int
  shows "foldl max x xs = Max (set (x # xs))"
proof (induction xs arbitrary: x)
  case Nil
  show ?case by simp
next
  case (Cons y ys)
  have "foldl max x (y # ys) = Max (set (max x y # ys))"
    using Cons.IH [of "max x y"] by simp
  also have "\<dots> = Max (set (x # y # ys))"
    by (cases "set ys = {}") (simp_all add: max.assoc)
  finally show ?case .
qed

lemma severityRank_range: "1 \<le> severityRank s \<and> severityRank s \<le> 4"
  by (cases s) simp_all

lemma severityRank_inj: "severityRank a = severityRank b \<Longrightarrow> a = b"
  by (cases a; cases b) simp_all

text \<open>
  Claim C7. \<open>calculateOverallSeverity\<close> returns \<open>low\<close> on the empty list. On a list
  that is not empty it returns what the ladder (4 and above critical, 3 and above high,
  2 and above medium, low otherwise) makes of the largest rank among the findings; the
  rank of the result is that largest rank, and the result is the severity of one of the
  findings.
\<close>

theorem calculateOverallSeverity_ladder:
  "calculateOverallSeverity [] = Low \<and>
   (found \<noteq> [] \<longrightarrow>
      (let maxRank = Max ((\<lambda>r. severityRank (severity r)) ` set found)
       in calculateOverallSeverity found =
            (if maxRank \<ge> 4 then Critical else if maxRank \<ge> 3 then High
             else if maxRank \<ge> 2 then Medium else Low)
          \<and> severityRank (calculateOverallSeverity found) = maxRank
          \<and> calculateOverallSeverity found \<in> severity ` set found))"
proof (cases found)
  case Nil
  then show ?thesis by simp
next
  case (Cons r rs)
  let ?f = "\<lambda>r. severityRank (severity r)"
  let ?m = "Max (?f ` set found)"
  have m: "foldl max (?f r) (map ?f rs) = ?m"
    using Cons by (simp add: foldl_max_eq_Max)
  have fin: "finite (?f ` set found)" and ne: "?f ` set found \<noteq> {}"
    using Cons by simp_all
  from Max_in [OF fin ne] obtain q where q: "q \<in> set found" "?f q = ?m"
    by auto
  have rng: "1 \<le> ?m" "?m \<le> 4"
    using severityRank_range [of "severity q"] q(2) by simp_all
  have ladder: "calculateOverallSeverity found =
      (if ?m \<ge> 4 then Critical else if ?m \<ge> 3 then High
       else if ?m \<ge> 2 then Medium else Low)"
    using Cons m by (simp add: Let_def)
  have rank: "severityRank (calculateOverallSeverity found) = ?m"
    using rng by (simp add: ladder)
  have "calculateOverallSeverity found = severity q"
    using rank q(2) by (simp add: severityRank_inj)
  then have mem: "calculateOverallSeverity found \<in> severity ` set found"
    using q(1) by simp
  show ?thesis
    using Cons ladder rank mem by (simp add: Let_def)
qed

theorem calculateOverallSeverity_ladder_witness:
  "calculateOverallSeverity
     [\<lparr>item_id = ''risk-auto_renewal-0'', category = AutoRenewal, severity = Medium,
       title = ''Auto-Renewal'', summary = ''s'', originalText = ''cancel before'',
       location = None\<rparr>,
      \<lparr>item_id = ''risk-data_sharing-0'', category = DataSharing, severity = High,
       title = ''Data Sharing'', summary = ''s'', originalText = ''sell your data'',
       location = None\<rparr>] = High"
  using calculateOverallSeverity_ladder
    [of "[\<lparr>item_id = ''risk-auto_renewal-0'', category = AutoRenewal, severity = Medium,
           title = ''Auto-Renewal'', summary = ''s'', originalText = ''cancel before'',
           location = None\<rparr>,
          \<lparr>item_id = ''risk-data_sharing-0'', category = DataSharing, severity = High,
           title = ''Data Sharing'', summary = ''s'', originalText = ''sell your data'',
           location = None\<rparr>]"]
  by (simp add: Let_def)

section \<open>The risk scorer\<close>

lemma foldl_add_sum_list:
  fixes a :: int
  shows "foldl (\<lambda>acc x. acc + f x) a xs = a + sum_list (map f xs)"
  by (induction xs arbitrary: a) simp_all

lemma hasAllCategories_subset:
  "hasAllCategories cats combo \<longleftrightarrow> set (categories combo) \<subseteq> set cats"
  by (auto simp add: hasAllCategories_def list_all_iff)

lemma foldl_boost_count:
  fixes a :: int
  shows "foldl (\<lambda>acc combo. if P combo then acc + severityBoost combo * 15 else acc) a combos
         = a + sum_list (map (\<lambda>combo. severityBoost combo * 15) (filter P combos))"
  by (induction combos arbitrary: a) simp_all

lemma severityBoost_one:
  "combo \<in> set DANGEROUS_COMBINATIONS \<Longrightarrow> severityBoost combo = 1"
  by (auto simp add: DANGEROUS_COMBINATIONS_def)

lemma sum_list_const_15:
  "(\<And>x. x \<in> set xs \<Longrightarrow> f x = (1::int)) \<Longrightarrow> sum_list (map (\<lambda>x. f x * 15) xs) = 15 * int (length xs)"
  by (induction xs) simp_all

lemma sum_rank_nonneg: "0 \<le> sum_list (map (\<lambda>r. severityRank (severity r) * 8) found)"
proof (induction found)
  case Nil
  show ?case by simp
next
  case (Cons r rs)
  then show ?case using severityRank_range [of "severity r"] by simp
qed

text \<open>
  Claim C3. \<open>calculateRiskScore\<close> returns 0 on the empty list. On any other list it
  returns the sum of \<open>rank(severity) * 8\<close> over the findings, plus 15 for each of the
  three combination rules all of whose categories are among the findings' categories,
  capped at 100. The result always lies between 0 and 100.
\<close>

theorem calculateRiskScore_formula:
  "calculateRiskScore [] = 0 \<and>
   length DANGEROUS_COMBINATIONS = 3 \<and>
   (found \<noteq> [] \<longrightarrow>
      calculateRiskScore found =
        min 100 (sum_list (map (\<lambda>r. severityRank (severity r) * 8) found)
                 + 15 * int (length (filter (\<lambda>combo. set (categories combo) \<subseteq> category ` set found)
                                       DANGEROUS_COMBINATIONS)))) \<and>
   0 \<le> calculateRiskScore found \<and> calculateRiskScore found \<le> 100"
proof -
  let ?P = "\<lambda>combo. set (categories combo) \<subseteq> category ` set found"
  let ?base = "sum_list (map (\<lambda>r. severityRank (severity r) * 8) found)"
  let ?hits = "filter ?P DANGEROUS_COMBINATIONS"
  have boost: "sum_list (map (\<lambda>combo. severityBoost combo * 15) ?hits) = 15 * int (length ?hits)"
    by (rule sum_list_const_15) (simp add: severityBoost_one)
  have eq: "found \<noteq> [] \<Longrightarrow> calculateRiskScore found = min 100 (?base + 15 * int (length ?hits))"
    by (simp add: calculateRiskScore_def Let_def foldl_add_sum_list hasAllCategories_subset
          foldl_boost_count boost)
  have empty: "calculateRiskScore [] = 0"
    by (simp add: calculateRiskScore_def)
  have three: "length DANGEROUS_COMBINATIONS = 3"
    by (simp add: DANGEROUS_COMBINATIONS_def)
  have range: "0 \<le> calculateRiskScore found \<and> calculateRiskScore found \<le> 100"
  proof (cases "found = []")
    case True
    then show ?thesis using empty by simp
  next
    case False
    then show ?thesis using eq sum_rank_nonneg [of found] by simp
  qed
  show ?thesis using empty three eq range by blast
qed

theorem calculateRiskScore_formula_witness:
  "calculateRiskScore
     [\<lparr>item_id = ''risk-liability_waiver-0'', category = LiabilityWaiver, severity = High,
       title = ''Liability Waiver'', summary = ''s'', originalText = ''as is'',
       location = None\<rparr>,
      \<lparr>item_id = ''risk-arbitration-0'', category = Arbitration, severity = Critical,
       title = ''Arbitration Clause'', summary = ''s'', originalText = ''binding arbitration'',
       location = None\<rparr>] = 71"
  using calculateRiskScore_formula
    [of "[\<lparr>item_id = ''risk-liability_waiver-0'', category = LiabilityWaiver, severity = High,
           title = ''Liability Waiver'', summary = ''s'', originalText = ''as is'',
           location = None\<rparr>,
          \<lparr>item_id = ''risk-arbitration-0'', category = Arbitration, severity = Critical,
           title = ''Arbitration Clause'', summary = ''s'', originalText = ''binding arbitration'',
           location = None\<rparr>]"]
  by (simp add: DANGEROUS_COMBINATIONS_def)

section \<open>The baseline comparator\<close>

lemma INDUSTRY_AVERAGES_default: "INDUSTRY_AVERAGES ''default'' = Number 55"
  by (simp add: INDUSTRY_AVERAGES_def INDUSTRY_AVERAGES_own_def)

lemma average_known_or_default:
  assumes "industry \<notin> set Object_prototype_names"
  shows "js_or (INDUSTRY_AVERAGES industry) (INDUSTRY_AVERAGES ''default'') =
         Number (case map_of INDUSTRY_AVERAGES_own industry of Some a \<Rightarrow> a | None \<Rightarrow> 55)"
proof (cases "map_of INDUSTRY_AVERAGES_own industry")
  case None
  then show ?thesis
    using assms by (simp add: js_or_def INDUSTRY_AVERAGES_def INDUSTRY_AVERAGES_default [unfolded INDUSTRY_AVERAGES_def])
next
  case (Some a)
  then have "(industry, a) \<in> set INDUSTRY_AVERAGES_own"
    by (rule map_of_SomeD)
  then have "a \<noteq> 0"
    by (auto simp add: INDUSTRY_AVERAGES_own_def)
  then show ?thesis
    using Some by (simp add: js_or_def INDUSTRY_AVERAGES_def)
qed

lemma compareToAverage_outside_prototype:
  fixes sc :: int
  assumes "industry \<notin> set Object_prototype_names"
  defines "average \<equiv> (case map_of INDUSTRY_AVERAGES_own industry of Some a \<Rightarrow> a | None \<Rightarrow> 55)"
  defines "difference \<equiv> sc - average"
  shows "comparison (compareToAverage sc industry) =
           (if difference < - 15 then Better else if difference > 15 then Worse else Average)"
    and "percentile (compareToAverage sc industry) =
           (if difference < - 15 then max 5 (50 - \<bar>difference\<bar>)
            else if difference > 15 then min 95 (50 + difference) else 50)"
  using average_known_or_default [OF assms(1)]
  by (simp_all add: compareToAverage_def Let_def average_def difference_def)

text \<open>
  Claim C5. The claim has every industry name that is not one of the five segments fall
  back to the default average 55. The lemma above shows that this is what happens for
  every name that \<open>Object.prototype\<close> does not define. For a name it does define, such
  as \<open>constructor\<close>, the property read yields the inherited function, which is truthy,
  so the fallback after \<open>||\<close> is not taken; the difference is NaN and the result is
  \<open>average\<close> at percentile 50 whatever the score. At score 0 the fallback would have
  given \<open>better\<close> at percentile 5, as it does for a name that is defined nowhere.
\<close>

theorem compareToAverage_inherited_name:
  "INDUSTRY_AVERAGES ''constructor'' = Inherited \<and>
   comparison (compareToAverage 0 ''constructor'') = Average \<and>
   percentile (compareToAverage 0 ''constructor'') = 50 \<and>
   comparison (compareToAverage 0 ''no_such_segment'') = Better \<and>
   percentile (compareToAverage 0 ''no_such_segment'') = 5"
  by (simp add: compareToAverage_def Let_def js_or_def INDUSTRY_AVERAGES_def
        INDUSTRY_AVERAGES_own_def Object_prototype_names_def)

text \<open>
  Claim C10. For a score from 0 to 100 and any industry name, the percentile lies between
  5 and 95: it is 50 when the comparison is \<open>average\<close>, between 5 and 34 when it is
  \<open>better\<close>, and between 66 and 95 when it is \<open>worse\<close>.
\<close>

theorem percentile_within_5_95:
  assumes "0 \<le> sc" and "sc \<le> 100"
  shows "5 \<le> percentile (compareToAverage sc industry) \<and>
         percentile (compareToAverage sc industry) \<le> 95 \<and>
         (comparison (compareToAverage sc industry) = Average \<longrightarrow>
            percentile (compareToAverage sc industry) = 50) \<and>
         (comparison (compareToAverage sc industry) = Better \<longrightarrow>
            5 \<le> percentile (compareToAverage sc industry) \<and>
            percentile (compareToAverage sc industry) \<le> 34) \<and>
         (comparison (compareToAverage sc industry) = Worse \<longrightarrow>
            66 \<le> percentile (compareToAverage sc industry) \<and>
            percentile (compareToAverage sc industry) \<le> 95)"
  by (cases "js_minus sc (js_or (INDUSTRY_AVERAGES industry) (INDUSTRY_AVERAGES ''default''))")
     (simp_all add: compareToAverage_def Let_def)

theorem percentile_within_5_95_witness:
  "(0::int) \<le> 90 \<and> (90::int) \<le> 100 \<and>
   comparison (compareToAverage 90 ''saas'') = Worse \<and>
   66 \<le> percentile (compareToAverage 90 ''saas'') \<and>
   percentile (compareToAverage 90 ''saas'') \<le> 95"
proof -
  have lo: "(0::int) \<le> 90" and hi: "(90::int) \<le> 100"
    by simp_all
  have worse: "comparison (compareToAverage 90 ''saas'') = Worse"
    by (simp add: compareToAverage_def Let_def js_or_def INDUSTRY_AVERAGES_def
          INDUSTRY_AVERAGES_own_def)
  show ?thesis
    using percentile_within_5_95 [OF lo hi, of "''saas''"] worse by simp
qed

section \<open>The keyword matcher: occurrence, order and the clock\<close>

lemma starts_with_prefix: "starts_with s k \<longleftrightarrow> prefix k s"
  by (induction s k rule: starts_with.induct) auto

lemma indexOf_None_iff: "indexOf s k = None \<longleftrightarrow> \<not> sublist k s"
proof (induction s)
  case Nil
  show ?case by simp
next
  case (Cons c cs)
  show ?case
    using Cons.IH
    by (auto simp add: starts_with_prefix sublist_Cons_right split: option.splits)
qed

lemma first_keyword_None_iff:
  "first_keyword (toLowerCase text) kws = None \<longleftrightarrow>
   list_all (\<lambda>keyword. \<not> keyword_occurs keyword text) kws"
proof (induction kws)
  case Nil
  show ?case by simp
next
  case (Cons k ks)
  show ?case
  proof (cases "indexOf (toLowerCase text) (toLowerCase k)")
    case None
    then show ?thesis
      using Cons.IH indexOf_None_iff [of "toLowerCase text" "toLowerCase k"]
      by (simp add: keyword_occurs_def)
  next
    case (Some i)
    then show ?thesis
      using indexOf_None_iff [of "toLowerCase text" "toLowerCase k"]
      by (simp add: keyword_occurs_def)
  qed
qed

lemma first_keyword_SomeD:
  assumes "first_keyword (toLowerCase text) kws = Some (index, keyword)"
  shows "keyword \<in> set kws \<and> keyword_occurs keyword text"
  using assms
proof (induction kws)
  case Nil
  then show ?case by simp
next
  case (Cons k ks)
  show ?case
  proof (cases "indexOf (toLowerCase text) (toLowerCase k)")
    case None
    then show ?thesis using Cons by simp
  next
    case (Some i)
    then have "keyword = k" using Cons.prems by simp
    moreover have "keyword_occurs k text"
      using Some indexOf_None_iff [of "toLowerCase text" "toLowerCase k"]
      by (simp add: keyword_occurs_def)
    ultimately show ?thesis by simp
  qed
qed

text \<open>One round of the outer loop leaves the findings alone or appends one.\<close>

lemma scan_category_shape:
  "scan_category now text found (c, kws) = found \<or>
   (\<exists>r index keyword.
      scan_category now text found (c, kws) = found @ [r] \<and> category r = c \<and>
      first_keyword (toLowerCase text) kws = Some (index, keyword))"
  by (auto simp add: scan_category_def Let_def split: option.splits)

lemma category_without_id: "category (without_id r) = category r"
  by (simp add: without_id_def)

lemma severity_without_id: "severity (without_id r) = severity r"
  by (simp add: without_id_def)

lemma find_category_without_id:
  assumes "map without_id xs = map without_id ys"
  shows "List.find (\<lambda>r. category r = c) xs = None \<longleftrightarrow>
         List.find (\<lambda>r. category r = c) ys = None"
proof -
  have "map category xs = map (\<lambda>r. category (without_id r)) xs"
    by (simp add: category_without_id)
  also have "\<dots> = map category (map without_id xs)"
    by simp
  also have "\<dots> = map category (map without_id ys)"
    using assms by simp
  also have "\<dots> = map category ys"
    by (simp add: category_without_id)
  finally have "category ` set xs = category ` set ys"
    by (metis set_map)
  moreover have "List.find (\<lambda>r. category r = c) zs = None \<longleftrightarrow> c \<notin> category ` set zs"
    for zs :: "RiskItem list"
    by (auto simp add: find_None_iff)
  ultimately show ?thesis
    by simp
qed

lemma scan_category_without_id:
  assumes "map without_id xs = map without_id ys"
  shows "map without_id (scan_category now1 text xs entry) =
         map without_id (scan_category now2 text ys entry)"
proof (cases entry)
  case (Pair c kws)
  show ?thesis
  proof (cases "first_keyword (toLowerCase text) kws")
    case None
    then show ?thesis using Pair assms by (simp add: scan_category_def)
  next
    case (Some hit)
    then show ?thesis
      using Pair assms find_category_without_id [OF assms, of c]
      by (cases hit) (simp add: scan_category_def Let_def without_id_def)
  qed
qed

lemma foldl_scan_without_id:
  assumes "map without_id xs = map without_id ys"
  shows "map without_id (foldl (scan_category now1 text) xs entries) =
         map without_id (foldl (scan_category now2 text) ys entries)"
  using assms
proof (induction entries arbitrary: xs ys)
  case Nil
  then show ?case by simp
next
  case (Cons e es)
  show ?case
    using Cons.IH [OF scan_category_without_id [OF Cons.prems]] by simp
qed

text \<open>The sort: a permutation, ordered by the comparator's key, and stable.\<close>

lemma set_insert_by: "set (insert_by cmp x ys) = insert x (set ys)"
  by (induction ys) auto

lemma set_array_sort: "set (array_sort cmp xs) = set xs"
  by (induction xs) (simp_all add: array_sort_def set_insert_by)

lemma map_insert_by:
  assumes "\<And>a b. cmp (f a) (f b) = cmp a b"
  shows "map f (insert_by cmp x ys) = insert_by cmp (f x) (map f ys)"
  by (induction ys) (simp_all add: assms)

lemma map_array_sort:
  assumes "\<And>a b. cmp (f a) (f b) = cmp a b"
  shows "map f (array_sort cmp xs) = array_sort cmp (map f xs)"
proof (induction xs)
  case Nil
  show ?case by (simp add: array_sort_def)
next
  case (Cons x xs)
  have "map f (insert_by cmp x (array_sort cmp xs)) = insert_by cmp (f x) (map f (array_sort cmp xs))"
    by (rule map_insert_by) (rule assms)
  then show ?case using Cons by (simp add: array_sort_def)
qed

lemma insert_by_lexicographic:
  fixes key :: "'a \<Rightarrow> int" and pos :: "'a \<Rightarrow> nat"
  defines "before \<equiv> \<lambda>a b. key a > key b \<or> (key a = key b \<and> pos a < pos b)"
  assumes "sorted_wrt before ys" and "\<And>y. y \<in> set ys \<Longrightarrow> pos x < pos y"
  shows "sorted_wrt before (insert_by (\<lambda>a b. key b - key a) x ys)"
  using assms(2,3)
proof (induction ys)
  case Nil
  show ?case by simp
next
  case (Cons y ys)
  show ?case
  proof (cases "key y - key x \<le> 0")
    case True
    have "before x z" if "z \<in> set (y # ys)" for z
    proof -
      have "key z \<le> key y"
        using that Cons.prems(1) by (auto simp add: before_def)
      then have "key z \<le> key x" using True by simp
      moreover have "pos x < pos z" using that Cons.prems(2) by simp
      ultimately show ?thesis by (auto simp add: before_def)
    qed
    then show ?thesis using True Cons.prems(1) by simp
  next
    case False
    then have "before y x" by (simp add: before_def)
    moreover have "sorted_wrt before (insert_by (\<lambda>a b. key b - key a) x ys)"
      using Cons by simp
    ultimately show ?thesis
      using False Cons.prems(1) by (auto simp add: set_insert_by)
  qed
qed

lemma array_sort_lexicographic:
  fixes key :: "'a \<Rightarrow> int" and pos :: "'a \<Rightarrow> nat"
  assumes "sorted_wrt (\<lambda>a b. pos a < pos b) xs"
  shows "sorted_wrt (\<lambda>a b. key a > key b \<or> (key a = key b \<and> pos a < pos b))
           (array_sort (\<lambda>a b. key b - key a) xs)"
  using assms
proof (induction xs)
  case Nil
  show ?case by (simp add: array_sort_def)
next
  case (Cons x xs)
  have "sorted_wrt (\<lambda>a b. key a > key b \<or> (key a = key b \<and> pos a < pos b))
          (insert_by (\<lambda>a b. key b - key a) x (array_sort (\<lambda>a b. key b - key a) xs))"
    by (rule insert_by_lexicographic) (use Cons in \<open>simp_all add: set_array_sort\<close>)
  then show ?case by (simp add: array_sort_def)
qed

text \<open>The findings before the sort follow the order of the table.\<close>

lemma foldl_scan_in_table_order:
  assumes "sorted_wrt (\<lambda>a b. pos (category a) < pos (category b)) found"
    and "sorted_wrt (\<lambda>d e. pos (fst d) < pos (fst e)) entries"
    and "\<And>r e. r \<in> set found \<Longrightarrow> e \<in> set entries \<Longrightarrow> pos (category r) < pos (fst e)"
  shows "sorted_wrt (\<lambda>a b. pos (category a) < pos (category b))
           (foldl (scan_category now text) found entries)"
  using assms
proof (induction entries arbitrary: found)
  case Nil
  then show ?case by simp
next
  case (Cons e es)
  obtain c kws where e: "e = (c, kws)" by (cases e)
  let ?next = "scan_category now text found e"
  from scan_category_shape [of now "text" found c kws]
  have next_sorted: "sorted_wrt (\<lambda>a b. pos (category a) < pos (category b)) ?next"
    and next_cats: "category ` set ?next \<subseteq> insert c (category ` set found)"
    using Cons.prems(1) Cons.prems(3) [of _ e] e
    by (auto simp add: sorted_wrt_append)
  have below: "pos (category r) < pos (fst d)" if "r \<in> set ?next" and "d \<in> set es" for r d
  proof (cases "category r = c")
    case True
    then show ?thesis using Cons.prems(2) that(2) e by auto
  next
    case False
    then have "category r \<in> category ` set found"
      using next_cats that(1) by auto
    then obtain q where "q \<in> set found" and "category r = category q"
      by auto
    then show ?thesis using Cons.prems(3) [of q d] that(2) by simp
  qed
  have "sorted_wrt (\<lambda>a b. pos (category a) < pos (category b))
          (foldl (scan_category now text) ?next es)"
    by (rule Cons.IH) (use next_sorted Cons.prems(2) below in simp_all)
  then show ?case by simp
qed

lemma RISK_KEYWORDS_in_definition_order:
  "sorted_wrt (\<lambda>d e. definition_order (fst d) < definition_order (fst e)) RISK_KEYWORDS"
proof -
  have "map (\<lambda>e. definition_order (fst e)) RISK_KEYWORDS = [0, 1, 2, 3, 4, 5, 6, 7]"
    by (simp add: definition_order_def RISK_KEYWORDS_def)
  moreover have "sorted_wrt (<) [0, 1, 2, 3, 4, 5, 6, 7 :: nat]"
    by simp
  ultimately have "sorted_wrt (<) (map (\<lambda>e. definition_order (fst e)) RISK_KEYWORDS)"
    by simp
  then show ?thesis
    by (simp add: sorted_wrt_map)
qed

lemma unsorted_findings_in_definition_order:
  "sorted_wrt (\<lambda>a b. definition_order (category a) < definition_order (category b))
     (foldl (scan_category now text) [] RISK_KEYWORDS)"
  by (rule foldl_scan_in_table_order) (simp_all add: RISK_KEYWORDS_in_definition_order)

lemma foldl_scan_keyword_present:
  assumes "r \<in> set (foldl (scan_category now text) found entries)"
  shows "r \<in> set found \<or>
         (\<exists>kws keyword. (category r, kws) \<in> set entries \<and> keyword \<in> set kws \<and>
            keyword_occurs keyword text)"
  using assms
proof (induction entries arbitrary: found)
  case Nil
  then show ?case by simp
next
  case (Cons e es)
  obtain c kws where e: "e = (c, kws)" by (cases e)
  from Cons.IH [of "scan_category now text found e"] Cons.prems
  consider (old) "r \<in> set (scan_category now text found e)"
    | (later) "\<exists>kws keyword. (category r, kws) \<in> set es \<and> keyword \<in> set kws \<and>
                 keyword_occurs keyword text"
    by auto
  then show ?case
  proof cases
    case later
    then show ?thesis by auto
  next
    case old
    from scan_category_shape [of now "text" found c kws]
    show ?thesis
    proof
      assume "scan_category now text found (c, kws) = found"
      then show ?thesis using old e by simp
    next
      assume "\<exists>r index keyword.
        scan_category now text found (c, kws) = found @ [r] \<and> category r = c \<and>
        first_keyword (toLowerCase text) kws = Some (index, keyword)"
      then obtain q index keyword where
        q: "scan_category now text found (c, kws) = found @ [q]" "category q = c"
           "first_keyword (toLowerCase text) kws = Some (index, keyword)"
        by blast
      show ?thesis
      proof (cases "r = q")
        case True
        then show ?thesis
          using q(2) first_keyword_SomeD [OF q(3)] e by auto
      next
        case False
        then show ?thesis using old q(1) e by simp
      qed
    qed
  qed
qed

lemma distinct_insert_by: "distinct (insert_by cmp x ys) \<longleftrightarrow> x \<notin> set ys \<and> distinct ys"
  by (induction ys) (auto simp add: set_insert_by)

lemma distinct_array_sort: "distinct (array_sort cmp xs) \<longleftrightarrow> distinct xs"
  by (induction xs) (simp_all add: array_sort_def distinct_insert_by set_array_sort [unfolded array_sort_def])

lemma strictly_sorted_distinct:
  fixes f :: "'a \<Rightarrow> nat"
  assumes "sorted_wrt (\<lambda>a b. f a < f b) xs"
  shows "distinct (map f xs)"
  using assms by (induction xs) auto

lemma unsorted_findings_distinct:
  "distinct (map category (foldl (scan_category now text) [] RISK_KEYWORDS))"
proof -
  let ?xs = "foldl (scan_category now text) [] RISK_KEYWORDS"
  have "distinct (map (\<lambda>r. definition_order (category r)) ?xs)"
    by (rule strictly_sorted_distinct) (rule unsorted_findings_in_definition_order)
  then have "distinct (map definition_order (map category ?xs))"
    by (simp add: o_def)
  then show ?thesis
    using distinct_map [of definition_order "map category ?xs"] by blast
qed

text \<open>
  Claim C6. For every text, \<open>analyzeRisks\<close> returns at most one finding for each
  category, and for every finding it returns, some keyword of the finding's category
  occurs in the text, letter case apart.
\<close>

theorem analyzeRisks_one_per_category:
  "distinct (map category (analyzeRisks now text)) \<and>
   (\<forall>r \<in> set (analyzeRisks now text).
      \<exists>kws keyword. (category r, kws) \<in> set RISK_KEYWORDS \<and> keyword \<in> set kws \<and>
        keyword_occurs keyword text)"
proof
  let ?xs = "foldl (scan_category now text) [] RISK_KEYWORDS"
  have "distinct ?xs \<and> inj_on category (set ?xs)"
    using unsorted_findings_distinct [of now "text"] by (simp add: distinct_map)
  then show "distinct (map category (analyzeRisks now text))"
    by (simp add: analyzeRisks_def distinct_map distinct_array_sort set_array_sort)
next
  show "\<forall>r \<in> set (analyzeRisks now text).
      \<exists>kws keyword. (category r, kws) \<in> set RISK_KEYWORDS \<and> keyword \<in> set kws \<and>
        keyword_occurs keyword text"
    using foldl_scan_keyword_present [of _ now "text" "[]" RISK_KEYWORDS]
    by (simp add: analyzeRisks_def set_array_sort)
qed

theorem analyzeRisks_one_per_category_witness:
  "analyzeRisks (const_clock 0) ''Provided AS IS; no warranty.'' \<noteq> [] \<and>
   distinct (map category (analyzeRisks (const_clock 0) ''Provided AS IS; no warranty.''))"
proof -
  have "analyzeRisks (const_clock 0) ''Provided AS IS; no warranty.'' \<noteq> []"
    by code_simp
  then show ?thesis
    using analyzeRisks_one_per_category [of "const_clock 0" "''Provided AS IS; no warranty.''"]
    by simp
qed

text \<open>
  Claim C9. For every text, the findings \<open>analyzeRisks\<close> returns are in descending
  order of severity rank, and findings of equal severity are in the order in which
  their categories are scanned, the order of the keys of \<open>RISK_KEYWORDS\<close>.
\<close>

theorem analyzeRisks_sorted:
  "sorted_wrt
     (\<lambda>a b. severityRank (severity a) > severityRank (severity b) \<or>
            (severityRank (severity a) = severityRank (severity b) \<and>
             definition_order (category a) < definition_order (category b)))
     (analyzeRisks now text)"
  unfolding analyzeRisks_def
  by (rule array_sort_lexicographic
        [where key = "\<lambda>r. severityRank (severity r)"
           and pos = "\<lambda>r. definition_order (category r)"])
     (rule unsorted_findings_in_definition_order)

theorem analyzeRisks_sorted_witness:
  "map category
     (analyzeRisks (const_clock 0)
        ''We may suspend your account. Cancel before renewal. Binding arbitration applies.'')
     = [Arbitration, AutoRenewal, AccountTermination] \<and>
   map severity
     (analyzeRisks (const_clock 0)
        ''We may suspend your account. Cancel before renewal. Binding arbitration applies.'')
     = [Critical, Medium, Medium] \<and>
   sorted_wrt
     (\<lambda>a b. severityRank (severity a) > severityRank (severity b) \<or>
            (severityRank (severity a) = severityRank (severity b) \<and>
             definition_order (category a) < definition_order (category b)))
     (analyzeRisks (const_clock 0)
        ''We may suspend your account. Cancel before renewal. Binding arbitration applies.'')"
proof -
  have "map category
     (analyzeRisks (const_clock 0)
        ''We may suspend your account. Cancel before renewal. Binding arbitration applies.'')
     = [Arbitration, AutoRenewal, AccountTermination]"
    by code_simp
  moreover have "map severity
     (analyzeRisks (const_clock 0)
        ''We may suspend your account. Cancel before renewal. Binding arbitration applies.'')
     = [Critical, Medium, Medium]"
    by code_simp
  ultimately show ?thesis
    using analyzeRisks_sorted [of "const_clock 0"
      "''We may suspend your account. Cancel before renewal. Binding arbitration applies.''"]
    by simp
qed

text \<open>What the clock does not reach.\<close>

lemma calculateRiskScore_without_id:
  "calculateRiskScore (map without_id xs) = calculateRiskScore xs"
  by (simp add: calculateRiskScore_def foldl_map o_def severity_without_id category_without_id)

lemma calculateOverallSeverity_without_id:
  "calculateOverallSeverity (map without_id xs) = calculateOverallSeverity xs"
  by (cases xs) (simp_all add: o_def severity_without_id)

lemma generateOverallSummary_without_id:
  "generateOverallSummary (map without_id xs) = generateOverallSummary xs"
  by (simp add: generateOverallSummary_def filter_map o_def severity_without_id)

lemma detectDangerousCombinations_without_id:
  "detectDangerousCombinations (map without_id xs) = detectDangerousCombinations xs"
  by (simp add: detectDangerousCombinations_def o_def category_without_id)

lemma analyzeRisks_without_id:
  "map without_id (analyzeRisks now1 text) = map without_id (analyzeRisks now2 text)"
proof -
  let ?cmp = "\<lambda>a b. severityRank (severity b) - severityRank (severity a)"
  have cmp: "?cmp (without_id a) (without_id b) = ?cmp a b" for a b
    by (simp add: severity_without_id)
  have "map without_id (array_sort ?cmp xs) = array_sort ?cmp (map without_id xs)" for xs
    by (rule map_array_sort) (rule cmp)
  then show ?thesis
    using foldl_scan_without_id [of "[]" "[]" now1 "text" RISK_KEYWORDS now2]
    by (simp add: analyzeRisks_def)
qed

text \<open>
  Claim C2, as the code has it. Two runs of \<open>analyzeRisks\<close> on one text agree in every
  field of every finding except \<open>id\<close>, which holds what \<open>Date.now()\<close> returned when
  the finding was made. Two runs of \<open>analyzeRisksEnhanced\<close> agree in the score, the
  comparison, the red flags, the combination warnings, the overall severity and the
  summary, and in the findings up to their \<open>id\<close>.
\<close>

theorem analysis_equal_up_to_ids:
  "map without_id (analyzeRisks now1 text) = map without_id (analyzeRisks now2 text) \<and>
   map without_id (risks (analyzeRisksEnhanced now1 text)) =
     map without_id (risks (analyzeRisksEnhanced now2 text)) \<and>
   score (analyzeRisksEnhanced now1 text) = score (analyzeRisksEnhanced now2 text) \<and>
   comparison_record (analyzeRisksEnhanced now1 text) =
     comparison_record (analyzeRisksEnhanced now2 text) \<and>
   redFlags (analyzeRisksEnhanced now1 text) = redFlags (analyzeRisksEnhanced now2 text) \<and>
   combinationWarnings (analyzeRisksEnhanced now1 text) =
     combinationWarnings (analyzeRisksEnhanced now2 text) \<and>
   overallSeverity (analyzeRisksEnhanced now1 text) =
     overallSeverity (analyzeRisksEnhanced now2 text) \<and>
   overall_summary (analyzeRisksEnhanced now1 text) =
     overall_summary (analyzeRisksEnhanced now2 text)"
proof -
  let ?a = "analyzeRisks now1 text" and ?b = "analyzeRisks now2 text"
  have same: "map without_id ?a = map without_id ?b"
    by (rule analyzeRisks_without_id)
  have sc: "calculateRiskScore ?a = calculateRiskScore ?b"
    using calculateRiskScore_without_id [of ?a] calculateRiskScore_without_id [of ?b] same
    by simp
  have sev: "calculateOverallSeverity ?a = calculateOverallSeverity ?b"
    using calculateOverallSeverity_without_id [of ?a] calculateOverallSeverity_without_id [of ?b]
      same by simp
  have summ: "generateOverallSummary ?a = generateOverallSummary ?b"
    using generateOverallSummary_without_id [of ?a] generateOverallSummary_without_id [of ?b]
      same by simp
  have warn: "detectDangerousCombinations ?a = detectDangerousCombinations ?b"
    using detectDangerousCombinations_without_id [of ?a]
      detectDangerousCombinations_without_id [of ?b] same by simp
  show ?thesis
    using same sc sev summ warn by (simp add: analyzeRisksEnhanced_def Let_def)
qed

theorem analysis_equal_up_to_ids_witness:
  "map without_id (analyzeRisks (const_clock 0) ''as is'') =
     map without_id (analyzeRisks (const_clock 1) ''as is'') \<and>
   map item_id (analyzeRisks (const_clock 0) ''as is'') = [''risk-liability_waiver-0''] \<and>
   map item_id (analyzeRisks (const_clock 1) ''as is'') = [''risk-liability_waiver-1'']"
proof -
  have "map item_id (analyzeRisks (const_clock 0) ''as is'') = [''risk-liability_waiver-0'']"
    by code_simp
  moreover have "map item_id (analyzeRisks (const_clock 1) ''as is'') = [''risk-liability_waiver-1'']"
    by code_simp
  ultimately show ?thesis
    using analysis_equal_up_to_ids [of "const_clock 0" "''as is''" "const_clock 1"]
    by simp
qed

theorem analyzeRisks_clock_counterexample:
  "analyzeRisks (const_clock 0) ''as is'' \<noteq> analyzeRisks (const_clock 1) ''as is''"
  by code_simp

lemma foldl_scan_nothing:
  assumes "list_all (\<lambda>entry. list_all (\<lambda>keyword. \<not> keyword_occurs keyword text) (snd entry))
             entries"
  shows "foldl (scan_category now text) found entries = found"
  using assms
proof (induction entries)
  case Nil
  show ?case by simp
next
  case (Cons e es)
  obtain c kws where e: "e = (c, kws)" by (cases e)
  have "first_keyword (toLowerCase text) kws = None"
    using Cons.prems e by (simp add: first_keyword_None_iff)
  then have "scan_category now text found e = found"
    using e by (simp add: scan_category_def)
  then show ?case using Cons by simp
qed

text \<open>
  Claim C1, as the code has it. For every text in which no keyword of any category
  occurs, the empty text among them, \<open>analyzeRisksEnhanced\<close> returns no findings, the
  score 0, the summary \<open>No significant risks detected in this agreement.\<close> and, the score
  0 lying 55 below the default average, the comparison \<open>better\<close> at percentile 5.
\<close>

theorem no_keyword_analysis:
  assumes "no_keyword_occurs text"
  shows "risks (analyzeRisksEnhanced now text) = [] \<and>
         score (analyzeRisksEnhanced now text) = 0 \<and>
         overall_summary (analyzeRisksEnhanced now text) =
           ''No significant risks detected in this agreement.'' \<and>
         comparison (comparison_record (analyzeRisksEnhanced now text)) = Better \<and>
         percentile (comparison_record (analyzeRisksEnhanced now text)) = 5"
proof -
  have "foldl (scan_category now text) [] RISK_KEYWORDS = []"
    by (rule foldl_scan_nothing) (use assms in \<open>simp add: no_keyword_occurs_def\<close>)
  then have none: "analyzeRisks now text = []"
    by (simp add: analyzeRisks_def array_sort_def)
  have cmp: "compareToAverage 0 ''default'' =
      \<lparr>comparison = Better, percentile = 5,
       message = ''This agreement is better than 95% of similar services''\<rparr>"
    by code_simp
  show ?thesis
    using none cmp
    by (simp add: analyzeRisksEnhanced_def Let_def calculateRiskScore_def
          generateOverallSummary_def)
qed

theorem no_keyword_analysis_witness:
  "no_keyword_occurs ''Welcome to our service.'' \<and>
   risks (analyzeRisksEnhanced (const_clock 0) ''Welcome to our service.'') = [] \<and>
   comparison (comparison_record (analyzeRisksEnhanced (const_clock 0) ''Welcome to our service.''))
     = Better"
proof -
  have h: "no_keyword_occurs ''Welcome to our service.''"
    by code_simp
  show ?thesis
    using h no_keyword_analysis [OF h, of "const_clock 0"] by simp
qed

theorem no_keyword_average_counterexample:
  "no_keyword_occurs [] \<and>
   comparison (comparison_record (analyzeRisksEnhanced (const_clock 0) [])) \<noteq> Average \<and>
   percentile (comparison_record (analyzeRisksEnhanced (const_clock 0) [])) \<noteq> 50"
  by code_simp

text \<open>
  Claim C4. The overall severity \<open>analyzeRisksEnhanced\<close> returns is critical when
  there are 3 or more red flags and the base severity (that of the findings alone) is
  not critical; otherwise high when there are 2 or more red flags and the base severity
  ranks below 3; otherwise the base severity. So 2 red flags on a base of medium give
  high, and 3 or more red flags give critical on every base.
\<close>

theorem red_flag_escalation:
  "overallSeverity (analyzeRisksEnhanced now text) =
     (let base = calculateOverallSeverity (analyzeRisks now text);
          n = length (detectRedFlags text)
      in if n \<ge> 3 \<and> base \<noteq> Critical then Critical
         else if n \<ge> 2 \<and> severityRank base < 3 then High
         else base) \<and>
   (length (detectRedFlags text) = 2 \<and>
    calculateOverallSeverity (analyzeRisks now text) = Medium \<longrightarrow>
      overallSeverity (analyzeRisksEnhanced now text) = High) \<and>
   (length (detectRedFlags text) \<ge> 3 \<longrightarrow>
      overallSeverity (analyzeRisksEnhanced now text) = Critical)"
proof -
  let ?base = "calculateOverallSeverity (analyzeRisks now text)"
  let ?n = "length (detectRedFlags text)"
  have rule: "overallSeverity (analyzeRisksEnhanced now text) =
      (if ?n \<ge> 3 \<and> ?base \<noteq> Critical then Critical
       else if ?n \<ge> 2 \<and> severityRank ?base < 3 then High
       else ?base)"
    by (simp add: analyzeRisksEnhanced_def Let_def)
  have two: "overallSeverity (analyzeRisksEnhanced now text) = High"
    if "?n = 2 \<and> ?base = Medium"
    using that by (simp add: rule)
  have three: "overallSeverity (analyzeRisksEnhanced now text) = Critical" if "?n \<ge> 3"
    using that by (cases "?base = Critical") (simp_all add: rule)
  show ?thesis
    using rule two three by (simp add: Let_def)
qed

theorem red_flag_escalation_witness:
  "length (detectRedFlags ''Cancel before. We waive any claims. Perpetual irrevocable license'') = 2 \<and>
   calculateOverallSeverity
     (analyzeRisks (const_clock 0)
        ''Cancel before. We waive any claims. Perpetual irrevocable license'') = Medium \<and>
   overallSeverity
     (analyzeRisksEnhanced (const_clock 0)
        ''Cancel before. We waive any claims. Perpetual irrevocable license'') = High \<and>
   length (detectRedFlags ''No refunds ever, sole discretion, without notice; governed by the laws of X'') \<ge> 3 \<and>
   calculateOverallSeverity
     (analyzeRisks (const_clock 0)
        ''No refunds ever, sole discretion, without notice; governed by the laws of X'') = High \<and>
   overallSeverity
     (analyzeRisksEnhanced (const_clock 0)
        ''No refunds ever, sole discretion, without notice; governed by the laws of X'') = Critical"
proof -
  have two: "length (detectRedFlags ''Cancel before. We waive any claims. Perpetual irrevocable license'') = 2"
    by code_simp
  have medium: "calculateOverallSeverity
     (analyzeRisks (const_clock 0)
        ''Cancel before. We waive any claims. Perpetual irrevocable license'') = Medium"
    by code_simp
  have three: "length (detectRedFlags ''No refunds ever, sole discretion, without notice; governed by the laws of X'') \<ge> 3"
    by code_simp
  have high: "calculateOverallSeverity
     (analyzeRisks (const_clock 0)
        ''No refunds ever, sole discretion, without notice; governed by the laws of X'') = High"
    by code_simp
  show ?thesis
    using two medium three high
      red_flag_escalation [of "const_clock 0"
        "''Cancel before. We waive any claims. Perpetual irrevocable license''"]
      red_flag_escalation [of "const_clock 0"
        "''No refunds ever, sole discretion, without notice; governed by the laws of X''"]
    by simp
qed

section \<open>The red-flag scanner\<close>

lemma foldl_first_matches:
  "foldl (\<lambda>flags pattern.
            case regex_exec pattern text of Some m \<Rightarrow> flags @ [m] | None \<Rightarrow> flags)
     found patterns
   = found @ concat (map (\<lambda>pattern. first_match pattern text) patterns)"
  by (induction patterns arbitrary: found) (simp_all add: first_match_def split: option.splits)

lemma detectRedFlags_concat:
  "detectRedFlags text = concat (map (\<lambda>pattern. first_match pattern text) RED_FLAGS)"
  by (simp add: detectRedFlags_def foldl_first_matches)

lemma match_here_prefix:
  assumes "match_here r s = Some m"
  shows "\<exists>after. s = m @ after"
proof -
  from assms obtain n where "m = take n s"
    by (auto simp add: match_here_def split: list.splits)
  then have "s = m @ drop n s" by simp
  then show ?thesis ..
qed

lemma regex_exec_leftmost:
  assumes "regex_exec r s = Some m"
  shows "\<exists>k. k \<le> length s \<and> match_here r (drop k s) = Some m \<and>
             (\<forall>j < k. match_here r (drop j s) = None)"
  using assms
proof (induction s)
  case Nil
  then show ?case by simp
next
  case (Cons c cs)
  show ?case
  proof (cases "match_here r (c # cs)")
    case (Some m')
    then have "match_here r (drop 0 (c # cs)) = Some m" using Cons.prems by simp
    then show ?thesis by blast
  next
    case None
    then have "regex_exec r cs = Some m" using Cons.prems by simp
    from Cons.IH [OF this] obtain k where
      k: "k \<le> length cs" "match_here r (drop k cs) = Some m"
         "\<forall>j < k. match_here r (drop j cs) = None"
      by blast
    have "match_here r (drop j (c # cs)) = None" if "j < Suc k" for j
      using that None k(3) by (cases j) simp_all
    then show ?thesis
      using k(1,2) by (intro exI [of _ "Suc k"]) simp
  qed
qed

lemma regex_exec_verbatim:
  assumes "regex_exec r s = Some m"
  shows "\<exists>before after. s = before @ m @ after \<and> match_here r (m @ after) = Some m \<and>
           (\<forall>j < length before. match_here r (drop j s) = None)"
proof -
  from regex_exec_leftmost [OF assms] obtain k where
    k: "k \<le> length s" "match_here r (drop k s) = Some m"
       "\<forall>j < k. match_here r (drop j s) = None"
    by blast
  from match_here_prefix [OF k(2)] obtain after where after: "drop k s = m @ after" ..
  have "s = take k s @ m @ after"
    using after by (metis append_take_drop_id)
  moreover have "length (take k s) = k"
    using k(1) by simp
  ultimately show ?thesis
    using k(2,3) after by (metis)
qed

lemma regex_exec_finds:
  assumes "match_here r s \<noteq> None"
  shows "regex_exec r (before @ s) \<noteq> None"
proof (induction before)
  case Nil
  show ?case using assms by (cases s) auto
next
  case (Cons c cs)
  then show ?case by (auto split: option.splits)
qed

lemma binding_arbitration_here:
  "match_here (seqs [Lit ''binding'', Spaces, Lit ''arbitration''])
     (''binding arbitration'' @ after) \<noteq> None"
  by (simp add: match_here_def is_white_space_def)

text \<open>
  Claim C8. \<open>detectRedFlags\<close> returns, pattern by pattern in the order of the ten
  patterns, the first match of each pattern that matches and nothing for the others.
  A first match is a piece of the text as it stands: the pattern matches there and at
  no earlier position. A text that contains \<open>binding arbitration\<close> has a match of that
  pattern in the result, and a text that no pattern matches gives the empty list.
\<close>

theorem detectRedFlags_first_matches:
  "length RED_FLAGS = 10 \<and>
   detectRedFlags text = concat (map (\<lambda>pattern. first_match pattern text) RED_FLAGS) \<and>
   (\<forall>pattern m. regex_exec pattern text = Some m \<longrightarrow>
      (\<exists>before after. text = before @ m @ after \<and>
         match_here pattern (m @ after) = Some m \<and>
         (\<forall>j < length before. match_here pattern (drop j text) = None))) \<and>
   RED_FLAGS ! 2 = seqs [Lit ''binding'', Spaces, Lit ''arbitration''] \<and>
   (sublist ''binding arbitration'' text \<longrightarrow>
      (\<exists>m. regex_exec (RED_FLAGS ! 2) text = Some m \<and> m \<in> set (detectRedFlags text))) \<and>
   ((\<forall>pattern \<in> set RED_FLAGS. regex_exec pattern text = None) \<longrightarrow>
      detectRedFlags text = [])"
proof -
  have ten: "length RED_FLAGS = 10"
    by (simp add: RED_FLAGS_def)
  have third: "RED_FLAGS ! 2 = seqs [Lit ''binding'', Spaces, Lit ''arbitration'']"
    by (simp add: RED_FLAGS_def)
  have verbatim: "\<forall>pattern m. regex_exec pattern text = Some m \<longrightarrow>
      (\<exists>before after. text = before @ m @ after \<and>
         match_here pattern (m @ after) = Some m \<and>
         (\<forall>j < length before. match_here pattern (drop j text) = None))"
    using regex_exec_verbatim by blast
  have binding: "\<exists>m. regex_exec (RED_FLAGS ! 2) text = Some m \<and> m \<in> set (detectRedFlags text)"
    if "sublist ''binding arbitration'' text"
  proof -
    from that obtain before after where "text = before @ ''binding arbitration'' @ after"
      by (auto simp add: sublist_def)
    then have "regex_exec (RED_FLAGS ! 2) text \<noteq> None"
      using regex_exec_finds [OF binding_arbitration_here, of before after] third by simp
    then obtain m where m: "regex_exec (RED_FLAGS ! 2) text = Some m"
      by auto
    have "RED_FLAGS ! 2 \<in> set RED_FLAGS"
      using ten by simp
    then have "m \<in> set (detectRedFlags text)"
      using m by (force simp add: detectRedFlags_concat first_match_def)
    then show ?thesis using m by blast
  qed
  have no_match: "detectRedFlags text = []"
    if "\<forall>pattern \<in> set RED_FLAGS. regex_exec pattern text = None"
    using that by (simp add: detectRedFlags_concat first_match_def)
  from ten detectRedFlags_concat [of "text"] verbatim third binding no_match
  show ?thesis
    by (intro conjI impI) assumption+
qed

theorem detectRedFlags_first_matches_witness:
  "sublist ''binding arbitration'' ''All disputes go to binding arbitration.'' \<and>
   detectRedFlags ''All disputes go to binding arbitration.'' \<noteq> [] \<and>
   regex_exec (RED_FLAGS ! 2) ''All disputes go to binding arbitration.''
     = Some ''binding arbitration'' \<and>
   detectRedFlags ''Welcome to our service.'' = []"
proof -
  have present: "sublist ''binding arbitration'' ''All disputes go to binding arbitration.''"
    by code_simp
  have found: "regex_exec (RED_FLAGS ! 2) ''All disputes go to binding arbitration.''
     = Some ''binding arbitration''"
    by code_simp
  have none: "\<forall>pattern \<in> set RED_FLAGS. regex_exec pattern ''Welcome to our service.'' = None"
    by code_simp
  show ?thesis
    using present found none
      detectRedFlags_first_matches [of "''All disputes go to binding arbitration.''"]
      detectRedFlags_first_matches [of "''Welcome to our service.''"]
    by auto
qed

end
